theory Spec2Isabelle
  imports Main
begin

section \<open>The landing-page verification flow\<close>

text \<open>
  The repository is one Python script, \<^verbatim>\<open>verify_landing_page_flow.py\<close>: a function
  \<^verbatim>\<open>run(page)\<close> of six statements that drive a browser page, and a \<^verbatim>\<open>__main__\<close> block
  that launches the browser inside a \<^verbatim>\<open>with sync_playwright()\<close> scope and calls it.

  The script is embedded as state-passing functions over a \<open>world\<close>: the target web
  application, the page's current view, the file system, the process environment, the
  resources held and the log of everything the script asked the browser to do. A Python
  statement is a function from the world to an outcome (an exception or a value) and the
  world it leaves behind; an exception does not undo what was done before it.
\<close>

subsection \<open>Pages, locators and the target application\<close>

type_synonym path = string
type_synonym bytes = "nat list"

text \<open>
  An element of the rendered page as the accessibility tree shows it: its ARIA role and its
  accessible name. A view lists the elements that are rendered and visible within the
  library's wait timeout.
\<close>

record element =
  el_role :: string
  el_name :: string

type_synonym view = "element list"

text \<open>The locator built by \<^verbatim>\<open>page.get_by_role(role, name=..., exact=...)\<close>.\<close>

datatype locator = ByRole string string bool

text \<open>
  The target application as the browser presents it, all of it outside the script: what
  an address serves (\<open>None\<close> when it is unreachable), what activating a control of a view
  renders next, the image data a view is captured as, and how the library matches the
  name a locator asks for against an element's accessible name (given the locator's
  \<^verbatim>\<open>exact\<close> flag, the name wanted and the actual name). The matching rule is the
  library's own and is not fixed here: every property below holds whatever it is.
\<close>

record app =
  serve :: "string \<Rightarrow> view option"
  activate :: "view \<Rightarrow> element \<Rightarrow> view"
  pixels :: "view \<Rightarrow> bytes"
  matching :: "bool \<Rightarrow> string \<Rightarrow> string \<Rightarrow> bool"

subsection \<open>Errors, values, events and the world\<close>

text \<open>
  The three failure conditions of the specification: the library's exception for a failed
  navigation, for a visibility expectation that is not met within the timeout, and for a
  locator that does not resolve to exactly one element where one is required.
\<close>

datatype error = NavigationError | VisibilityTimeout | ElementResolutionError

datatype pyval = PyNone | PyResponse | PyBytes bytes | PyHandle

datatype step =
    Goto string
  | ExpectVisible locator
  | Screenshot path
  | Click locator

datatype resource = BrowserProcess | PageHandle

datatype event =
    StartPlaywright
  | Launch bool
  | NewPage
  | PageCall step
  | CloseBrowser
  | StopPlaywright
  | Released resource

record world =
  target :: app
  environ :: "string \<rightharpoonup> string"
  files :: "path \<rightharpoonup> bytes"
  current :: view
  live :: "resource list"
  events :: "event list"

type_synonym outcome = "(error + pyval) \<times> world"
type_synonym stmt = "world \<Rightarrow> outcome"

text \<open>
  Statement sequencing \<^verbatim>\<open>s; t\<close>: the value of an expression statement is dropped, an
  exception skips the rest. A function body that ends without \<^verbatim>\<open>return\<close> yields \<^verbatim>\<open>None\<close>.
\<close>

definition seq :: "stmt \<Rightarrow> stmt \<Rightarrow> stmt" where
  "seq s t w = (case s w of (Inl e, w') \<Rightarrow> (Inl e, w') | (Inr _, w') \<Rightarrow> t w')"

definition return_none :: stmt where
  "return_none w = (Inr PyNone, w)"

definition record_event :: "event \<Rightarrow> world \<Rightarrow> world" where
  "record_event ev w = w\<lparr>events := events w @ [ev]\<rparr>"

subsection \<open>The browser-automation library\<close>

text \<open>
  Modelled from the spec: the browser-automation library (Playwright) is an external
  dependency, not code of the repository, so the operations the script calls
  (\<open>get_by_role\<close>, \<open>expect\<close>, \<open>goto\<close>, \<open>to_be_visible\<close>, \<open>screenshot\<close>, \<open>click\<close>, \<open>launch\<close>,
  \<open>new_page\<close>, \<open>close\<close> and the \<open>with_sync_playwright\<close> scope) are modelled as sections 4.1,
  5, 6 and 7 of the specification describe them: which of the three failure conditions
  each raises, what it does to the page, and what it writes. Every operation logs its
  call before it acts. Where the script leaves an option of an operation at its default,
  the model passes the library's documented default on.
\<close>

text \<open>
  A locator resolves to the elements of the view that have its role and whose accessible
  name the library's matching accepts for the name and the \<^verbatim>\<open>exact\<close> flag it was built
  with.
\<close>

fun matches :: "(bool \<Rightarrow> string \<Rightarrow> string \<Rightarrow> bool) \<Rightarrow> locator \<Rightarrow> element \<Rightarrow> bool" where
  "matches m (ByRole r n exact) e = (el_role e = r \<and> m exact n (el_name e))"

definition resolve :: "(bool \<Rightarrow> string \<Rightarrow> string \<Rightarrow> bool) \<Rightarrow> locator \<Rightarrow> view \<Rightarrow> element list" where
  "resolve m loc v = filter (matches m loc) v"

text \<open>\<^verbatim>\<open>exact\<close> defaults to \<^verbatim>\<open>False\<close> when the caller does not pass it.\<close>

definition exact_default :: bool where
  "exact_default = False"

definition get_by_role :: "string \<Rightarrow> string \<Rightarrow> bool \<Rightarrow> locator" where
  "get_by_role r n exact = ByRole r n exact"

definition expect :: "locator \<Rightarrow> locator" where
  "expect loc = loc"

text \<open>\<^verbatim>\<open>page.goto(url)\<close>: fails when the address is unreachable, else shows what it serves.\<close>

definition goto :: "string \<Rightarrow> stmt" where
  "goto url w =
     (let w1 = record_event (PageCall (Goto url)) w in
      case serve (target w1) url of
        None \<Rightarrow> (Inl NavigationError, w1)
      | Some v \<Rightarrow> (Inr PyResponse, w1\<lparr>current := v\<rparr>))"

text \<open>
  \<^verbatim>\<open>expect(locator).to_be_visible()\<close>: waits until the locator's element is visible. No
  element within the timeout is a VisibilityTimeout; locators are strict, so more than one
  element is a resolution error.
\<close>

definition to_be_visible :: "locator \<Rightarrow> stmt" where
  "to_be_visible loc w =
     (let w1 = record_event (PageCall (ExpectVisible loc)) w in
      case resolve (matching (target w1)) loc (current w1) of
        [] \<Rightarrow> (Inl VisibilityTimeout, w1)
      | [e] \<Rightarrow> (Inr PyNone, w1)
      | _ \<Rightarrow> (Inl ElementResolutionError, w1))"

text \<open>
  \<^verbatim>\<open>page.screenshot(path=p)\<close>: captures the current view as a PNG image, writes it to
  \<open>p\<close> (replacing what was there) and returns the image.
\<close>

definition png_signature :: bytes where
  "png_signature = [137, 80, 78, 71, 13, 10, 26, 10]"

definition screenshot :: "path \<Rightarrow> stmt" where
  "screenshot p w =
     (let w1 = record_event (PageCall (Screenshot p)) w;
          img = png_signature @ pixels (target w1) (current w1)
      in (Inr (PyBytes img), w1\<lparr>files := (files w1)(p \<mapsto> img)\<rparr>))"

text \<open>
  \<^verbatim>\<open>locator.click()\<close>: activates the one element the locator resolves to; zero or
  several elements are an ElementResolutionError.
\<close>

definition click :: "locator \<Rightarrow> stmt" where
  "click loc w =
     (let w1 = record_event (PageCall (Click loc)) w in
      case resolve (matching (target w1)) loc (current w1) of
        [e] \<Rightarrow> (Inr PyNone, w1\<lparr>current := activate (target w1) (current w1) e\<rparr>)
      | _ \<Rightarrow> (Inl ElementResolutionError, w1))"

text \<open>
  Browser lifecycle. \<^verbatim>\<open>launch\<close> and \<^verbatim>\<open>new_page\<close> acquire the browser process and the page
  handle. \<^verbatim>\<open>browser.close()\<close> releases whatever of the two is still held, and so does
  leaving the \<^verbatim>\<open>with sync_playwright()\<close> scope, which stops the driver on the normal and on
  the exceptional exit and lets the exception pass.
\<close>

definition release_all :: "world \<Rightarrow> world" where
  "release_all w = w\<lparr>events := events w @ map Released (rev (live w)), live := []\<rparr>"

definition launch :: "bool \<Rightarrow> stmt" where
  "launch headless w =
     (let w1 = record_event (Launch headless) w
      in (Inr PyHandle, w1\<lparr>live := live w1 @ [BrowserProcess]\<rparr>))"

definition new_page :: stmt where
  "new_page w =
     (let w1 = record_event NewPage w
      in (Inr PyHandle, w1\<lparr>current := [], live := live w1 @ [PageHandle]\<rparr>))"

definition close :: stmt where
  "close w = (Inr PyNone, release_all (record_event CloseBrowser w))"

definition with_sync_playwright :: "stmt \<Rightarrow> stmt" where
  "with_sync_playwright body w =
     (case body (record_event StartPlaywright w) of
        (Inl e, w') \<Rightarrow> (Inl e, release_all (record_event StopPlaywright w'))
      | (Inr _, w') \<Rightarrow> (Inr PyNone, release_all (record_event StopPlaywright w')))"

subsection \<open>The script\<close>

text \<open>The six statements of \<^verbatim>\<open>run(page)\<close>, lines 3 to 20 of the source.\<close>

definition run :: stmt where
  "run =
     seq (goto ''http://localhost:5000'')
    (seq (to_be_visible (expect (get_by_role ''heading'' ''The Future of AI Automation is Here'' exact_default)))
    (seq (screenshot ''jules-scratch/verification/landing_page.png'')
    (seq (click (get_by_role ''button'' ''Login'' exact_default))
    (seq (to_be_visible (expect (get_by_role ''heading'' ''Welcome to AuraOS'' exact_default)))
    (seq (screenshot ''jules-scratch/verification/login_page.png'')
     return_none)))))"

text \<open>The body of the \<^verbatim>\<open>__main__\<close> block, lines 23 to 27.\<close>

definition main :: stmt where
  "main =
     with_sync_playwright
       (seq (launch True)
       (seq new_page
       (seq run
       (seq close
        return_none))))"

text \<open>
  The module's top level, executed under a given \<^verbatim>\<open>__name__\<close>: the import and the
  \<^verbatim>\<open>def\<close> bind names and touch nothing of the world; the block runs under the guard only.
\<close>

definition import_names :: stmt where
  "import_names w = (Inr PyNone, w)"

definition def_run :: stmt where
  "def_run w = (Inr PyNone, w)"

definition module :: "string \<Rightarrow> stmt" where
  "module dunder_name =
     seq import_names
    (seq def_run
    (if dunder_name = ''__main__'' then main else return_none))"

text \<open>
  Running the file as a program: a fresh process (no page, nothing held, nothing issued)
  executes the module as \<^verbatim>\<open>__main__\<close>; the interpreter exits with 0, or with 1 when an
  exception reaches the top.
\<close>

definition boot :: "app \<Rightarrow> (path \<rightharpoonup> bytes) \<Rightarrow> (string \<rightharpoonup> string) \<Rightarrow> world" where
  "boot a fs env =
     \<lparr>target = a, environ = env, files = fs, current = [], live = [], events = []\<rparr>"

definition exit_code :: "error + pyval \<Rightarrow> nat" where
  "exit_code r = (case r of Inl _ \<Rightarrow> 1 | Inr _ \<Rightarrow> 0)"

definition execute :: "app \<Rightarrow> (path \<rightharpoonup> bytes) \<Rightarrow> (string \<rightharpoonup> string) \<Rightarrow> nat \<times> world" where
  "execute a fs env =
     (case module ''__main__'' (boot a fs env) of (r, w) \<Rightarrow> (exit_code r, w))"

subsection \<open>The script's constants and its steps as data\<close>

text \<open>
  Names for the literals of \<open>run\<close>, and its six page calls as a list, with an interpreter
  that runs a list of page calls the way Python runs a block of statements. They are
  used to state the properties below; \<open>run\<close> itself is the definition above.
\<close>

definition landing_url :: string where
  "landing_url = ''http://localhost:5000''"

definition hero_heading :: locator where
  "hero_heading = ByRole ''heading'' ''The Future of AI Automation is Here'' False"

definition login_button :: locator where
  "login_button = ByRole ''button'' ''Login'' False"

definition welcome_heading :: locator where
  "welcome_heading = ByRole ''heading'' ''Welcome to AuraOS'' False"

definition landing_png :: path where
  "landing_png = ''jules-scratch/verification/landing_page.png''"

definition login_png :: path where
  "login_png = ''jules-scratch/verification/login_page.png''"

definition plan :: "step list" where
  "plan = [Goto landing_url, ExpectVisible hero_heading, Screenshot landing_png,
           Click login_button, ExpectVisible welcome_heading, Screenshot login_png]"

fun exec :: "step \<Rightarrow> stmt" where
  "exec (Goto u) = goto u"
| "exec (ExpectVisible loc) = to_be_visible (expect loc)"
| "exec (Screenshot p) = screenshot p"
| "exec (Click loc) = click loc"

fun exec_all :: "step list \<Rightarrow> stmt" where
  "exec_all [] w = (Inr PyNone, w)"
| "exec_all (s # ss) w =
     (case exec s w of (Inl e, w') \<Rightarrow> (Inl e, w') | (Inr _, w') \<Rightarrow> exec_all ss w')"

text \<open>
  A correctly behaving target: the landing address is reachable, the script's heading
  locator and its login locator each resolve to one element of the landing view
  (locators are strict), and activating that control renders a view in which the second
  heading locator resolves to one element.
\<close>

definition healthy :: "app \<Rightarrow> bool" where
  "healthy a =
     (case serve a landing_url of
        None \<Rightarrow> False
      | Some v \<Rightarrow>
          length (resolve (matching a) hero_heading v) = 1 \<and>
          length (resolve (matching a) login_button v) = 1 \<and>
          length (resolve (matching a) welcome_heading (activate a v (hd (resolve (matching a) login_button v)))) = 1)"

text \<open>Two worlds that differ at most in the file system and the process environment.\<close>

definition same_browser :: "world \<Rightarrow> world \<Rightarrow> bool" where
  "same_browser w w' =
     (target w = target w' \<and> current w = current w' \<and> live w = live w' \<and> events w = events w')"

definition indifferent :: "stmt \<Rightarrow> bool" where
  "indifferent s =
     (\<forall>w w'. same_browser w w' \<longrightarrow>
        fst (s w) = fst (s w') \<and> same_browser (snd (s w)) (snd (s w')))"

subsection \<open>Sample targets\<close>

text \<open>
  The matching used by the sample targets: the library's documented rule, for names
  written in ASCII. White space is always normalised (trimmed, runs collapsed to one
  space). With \<^verbatim>\<open>exact=True\<close> the normalised names must be equal, case-sensitively;
  without it, which is the default, the wanted name is searched for as a substring,
  ignoring case. The names of the samples below are plain ASCII with single spaces.
\<close>

definition is_space :: "char \<Rightarrow> bool" where
  "is_space c = (let n = (of_char c :: nat) in n = 32 \<or> (9 \<le> n \<and> n \<le> 13))"

fun squeeze :: "bool \<Rightarrow> string \<Rightarrow> string" where
  "squeeze pending [] = []"
| "squeeze pending (c # cs) =
     (if is_space c then squeeze True cs
      else if pending then CHR '' '' # c # squeeze False cs
      else c # squeeze False cs)"

definition normalize_white_space :: "string \<Rightarrow> string" where
  "normalize_white_space s = squeeze False (dropWhile is_space s)"

definition to_lower :: "char \<Rightarrow> char" where
  "to_lower c = (let n = (of_char c :: nat) in if 65 \<le> n \<and> n \<le> 90 then char_of (n + 32) else c)"

definition lower :: "string \<Rightarrow> string" where
  "lower s = map to_lower s"

fun starts_with :: "string \<Rightarrow> string \<Rightarrow> bool" where
  "starts_with s [] = True"
| "starts_with [] (p # ps) = False"
| "starts_with (c # cs) (p # ps) = (c = p \<and> starts_with cs ps)"

fun contains :: "string \<Rightarrow> string \<Rightarrow> bool" where
  "contains [] p = (p = [])"
| "contains (c # cs) p = (starts_with (c # cs) p \<or> contains cs p)"

definition ascii_matching :: "bool \<Rightarrow> string \<Rightarrow> string \<Rightarrow> bool" where
  "ascii_matching exact wanted actual =
     (let a = normalize_white_space actual; n = normalize_white_space wanted
      in if exact then a = n else contains (lower a) (lower n))"

definition heading :: "string \<Rightarrow> element" where
  "heading n = \<lparr>el_role = ''heading'', el_name = n\<rparr>"

definition button :: "string \<Rightarrow> element" where
  "button n = \<lparr>el_role = ''button'', el_name = n\<rparr>"

text \<open>
  A site that serves \<open>landing\<close> at the landing address and nothing elsewhere, and renders
  \<open>after\<close> once any control is activated.
\<close>

definition site :: "view \<Rightarrow> view \<Rightarrow> app" where
  "site landing after =
     \<lparr>serve = (\<lambda>u. if u = ''http://localhost:5000'' then Some landing else None),
      activate = (\<lambda>v e. after),
      pixels = (\<lambda>v. map (\<lambda>e. length (el_name e)) v),
      matching = ascii_matching\<rparr>"

definition aura_app :: app where
  "aura_app =
     site [heading ''The Future of AI Automation is Here'', button ''Login'']
          [heading ''Welcome to AuraOS'']"

definition dead_app :: app where
  "dead_app =
     \<lparr>serve = (\<lambda>u. None), activate = (\<lambda>v e. v), pixels = (\<lambda>v. []),
      matching = ascii_matching\<rparr>"

definition shouting_app :: app where
  "shouting_app =
     site [heading ''THE FUTURE OF AI AUTOMATION IS HERE'', button ''Login'']
          [heading ''Welcome to AuraOS'']"


definition two_headings_app :: app where
  "two_headings_app =
     site [heading ''The Future of AI Automation is Here'',
           heading ''Why the future of AI automation is here'',
           button ''Login'']
          [heading ''Welcome to AuraOS'']"


definition no_login_app :: app where
  "no_login_app =
     site [heading ''The Future of AI Automation is Here''] [heading ''Welcome to AuraOS'']"

definition two_logins_app :: app where
  "two_logins_app =
     site [heading ''The Future of AI Automation is Here'', button ''Login'', button ''Login'']
          [heading ''Welcome to AuraOS'']"

definition stale_files :: "path \<rightharpoonup> bytes" where
  "stale_files = [''jules-scratch/verification/login_page.png'' \<mapsto> [137, 80, 78, 71]]"

text \<open>
  The world in which \<open>main\<close> calls \<open>run\<close>: a fresh process that has entered the scope,
  launched the browser and opened the page.
\<close>

definition opened :: "app \<Rightarrow> (path \<rightharpoonup> bytes) \<Rightarrow> (string \<rightharpoonup> string) \<Rightarrow> world" where
  "opened a fs env = snd (new_page (snd (launch True (record_event StartPlaywright (boot a fs env)))))"

section \<open>Properties\<close>

subsection \<open>Shared lemmas\<close>

lemma run_exec_all: "run w = exec_all plan w"
  by (simp add: run_def plan_def seq_def return_none_def get_by_role_def exact_default_def
      landing_url_def hero_heading_def login_button_def welcome_heading_def landing_png_def
      login_png_def split: prod.splits sum.splits)

lemma exec_events: "events (snd (exec s w)) = events w @ [PageCall s]"
  by (cases s)
     (simp_all add: goto_def to_be_visible_def screenshot_def click_def expect_def
        record_event_def Let_def split: option.splits list.splits)

lemma exec_frame:
  "target (snd (exec s w)) = target w \<and> environ (snd (exec s w)) = environ w \<and>
   live (snd (exec s w)) = live w"
  by (cases s)
     (simp_all add: goto_def to_be_visible_def screenshot_def click_def expect_def
        record_event_def Let_def split: option.splits list.splits)

lemma exec_all_events:
  "\<exists>n\<le>length ss. events (snd (exec_all ss w)) = events w @ map PageCall (take n ss) \<and>
     (\<forall>v. fst (exec_all ss w) = Inr v \<longrightarrow> n = length ss)"
proof (induction ss arbitrary: w)
  case Nil
  then show ?case by simp
next
  case (Cons s ss)
  obtain r w1 where step: "exec s w = (r, w1)" by (cases "exec s w")
  have ev1: "events w1 = events w @ [PageCall s]"
    using exec_events [of s w] step by simp
  show ?case
  proof (cases r)
    case (Inl e)
    then have "exec_all (s # ss) w = (Inl e, w1)" using step by simp
    then have "events (snd (exec_all (s # ss) w)) = events w @ map PageCall (take 1 (s # ss)) \<and>
       (\<forall>v. fst (exec_all (s # ss) w) = Inr v \<longrightarrow> 1 = length (s # ss))"
      using ev1 by simp
    moreover have "(1::nat) \<le> length (s # ss)" by simp
    ultimately show ?thesis by blast
  next
    case (Inr v)
    then have eq: "exec_all (s # ss) w = exec_all ss w1" using step by simp
    from Cons.IH [of w1] obtain n where n: "n \<le> length ss"
      "events (snd (exec_all ss w1)) = events w1 @ map PageCall (take n ss)"
      "\<forall>v. fst (exec_all ss w1) = Inr v \<longrightarrow> n = length ss" by blast
    have "events (snd (exec_all (s # ss) w)) = events w @ map PageCall (take (Suc n) (s # ss)) \<and>
       (\<forall>v. fst (exec_all (s # ss) w) = Inr v \<longrightarrow> Suc n = length (s # ss))"
      using eq n ev1 by simp
    moreover have "Suc n \<le> length (s # ss)" using n by simp
    ultimately show ?thesis by blast
  qed
qed

lemma exec_all_fail_fast:
  "k < length ss \<Longrightarrow> exec_all (take k ss) w = (Inr v, wk) \<Longrightarrow>
   exec (ss ! k) wk = (Inl e, w_err) \<Longrightarrow>
   exec_all ss w = (Inl e, w_err) \<and> events w_err = events w @ map PageCall (take (Suc k) ss)"
proof (induction ss arbitrary: k w v)
  case Nil
  then show ?case by simp
next
  case (Cons s ss)
  show ?case
  proof (cases k)
    case 0
    with Cons.prems have "wk = w" "exec s w = (Inl e, w_err)" by simp_all
    then show ?thesis using exec_events [of s w] 0 by simp
  next
    case (Suc j)
    obtain r w1 where step: "exec s w = (r, w1)" by (cases "exec s w")
    from Cons.prems(2) Suc step obtain v1 where r: "r = Inr v1"
      by (cases r) simp_all
    have pre: "exec_all (take j ss) w1 = (Inr v, wk)"
      using Cons.prems(2) Suc step r by simp
    have "exec_all ss w1 = (Inl e, w_err) \<and>
          events w_err = events w1 @ map PageCall (take (Suc j) ss)"
      using Cons.IH [of j w1 v] Cons.prems Suc pre by simp
    moreover have "events w1 = events w @ [PageCall s]"
      using exec_events [of s w] step by simp
    ultimately show ?thesis using step r Suc by simp
  qed
qed

lemmas lib_defs = goto_def to_be_visible_def screenshot_def click_def expect_def
        record_event_def get_by_role_def exact_default_def

lemma exec_all_returns_none: "fst (exec_all ss w) = Inr v \<Longrightarrow> v = PyNone"
proof (induction ss arbitrary: w)
  case Nil
  then show ?case by simp
next
  case (Cons s ss)
  then show ?case by (auto split: prod.splits sum.splits)
qed

lemma plan_shape: "length plan = 6 \<and> distinct plan"
  by (simp add: plan_def landing_png_def login_png_def hero_heading_def welcome_heading_def)

lemma run_healthy:
  assumes "serve (target w) landing_url = Some v"
      and "resolve (matching (target w)) hero_heading v = [h]"
      and "resolve (matching (target w)) login_button v = [b]"
      and "resolve (matching (target w)) welcome_heading (activate (target w) v b) = [h2]"
  shows "run w =
     (Inr PyNone,
      w\<lparr>current := activate (target w) v b,
        files := (files w)(landing_png \<mapsto> png_signature @ pixels (target w) v,
                           login_png \<mapsto> png_signature @ pixels (target w) (activate (target w) v b)),
        events := events w @ map PageCall plan\<rparr>)"
  using assms
  by (simp add: run_def seq_def return_none_def lib_defs Let_def plan_def
      landing_url_def hero_heading_def login_button_def welcome_heading_def landing_png_def
      login_png_def)

lemma healthyD:
  assumes "healthy a"
  obtains v h b h2 where "serve a landing_url = Some v" "resolve (matching a) hero_heading v = [h]"
    "resolve (matching a) login_button v = [b]" "resolve (matching a) welcome_heading (activate a v b) = [h2]"
proof -
  from assms obtain v where v: "serve a landing_url = Some v"
    and l1: "length (resolve (matching a) hero_heading v) = 1"
    and l2: "length (resolve (matching a) login_button v) = 1"
    and l3: "length (resolve (matching a) welcome_heading (activate a v (hd (resolve (matching a) login_button v)))) = 1"
    by (auto simp: healthy_def split: option.splits)
  from l1 obtain h where h: "resolve (matching a) hero_heading v = [h]"
    by (cases "resolve (matching a) hero_heading v") auto
  from l2 obtain b where b: "resolve (matching a) login_button v = [b]"
    by (cases "resolve (matching a) login_button v") auto
  from l3 b obtain h2 where "resolve (matching a) welcome_heading (activate a v b) = [h2]"
    by (cases "resolve (matching a) welcome_heading (activate a v b)") auto
  with v h b that show thesis by blast
qed

lemma main_run:
  "main w =
    (case run (snd (new_page (snd (launch True (record_event StartPlaywright w))))) of
       (Inl e, w') \<Rightarrow> (Inl e, release_all (record_event StopPlaywright w'))
     | (Inr x, w') \<Rightarrow>
         (Inr PyNone, release_all (record_event StopPlaywright
                        (release_all (record_event CloseBrowser w')))))"
  by (simp add: main_def with_sync_playwright_def seq_def launch_def new_page_def close_def
      return_none_def Let_def split: prod.splits sum.splits)

lemma execute_main:
  "execute a fs env = (exit_code (fst (main (boot a fs env))), snd (main (boot a fs env)))"
  by (simp add: execute_def module_def seq_def import_names_def def_run_def split: prod.splits)

lemma opened_fields:
  "target (opened a fs env) = a" "files (opened a fs env) = fs" "environ (opened a fs env) = env"
  "live (opened a fs env) = [BrowserProcess, PageHandle]"
  "events (opened a fs env) = [StartPlaywright, Launch True, NewPage]"
  "current (opened a fs env) = []"
  by (simp_all add: opened_def new_page_def launch_def record_event_def boot_def Let_def)

lemma execute_healthy:
  assumes "serve a landing_url = Some v"
      and "resolve (matching a) hero_heading v = [h]"
      and "resolve (matching a) login_button v = [b]"
      and "resolve (matching a) welcome_heading (activate a v b) = [h2]"
  shows "fst (execute a fs env) = 0"
    and "files (snd (execute a fs env)) =
           fs(landing_png \<mapsto> png_signature @ pixels a v,
              login_png \<mapsto> png_signature @ pixels a (activate a v b))"
    and "events (snd (execute a fs env)) =
           [StartPlaywright, Launch True, NewPage] @ map PageCall plan @
           [CloseBrowser, Released PageHandle, Released BrowserProcess, StopPlaywright]"
proof -
  have r: "run (opened a fs env) =
     (Inr PyNone,
      (opened a fs env)\<lparr>current := activate a v b,
        files := fs(landing_png \<mapsto> png_signature @ pixels a v,
                    login_png \<mapsto> png_signature @ pixels a (activate a v b)),
        events := [StartPlaywright, Launch True, NewPage] @ map PageCall plan\<rparr>)"
    using run_healthy [of "opened a fs env" v h b h2] assms by (simp add: opened_fields)
  have m: "main (boot a fs env) =
    (case run (opened a fs env) of
       (Inl e, w') \<Rightarrow> (Inl e, release_all (record_event StopPlaywright w'))
     | (Inr x, w') \<Rightarrow>
         (Inr PyNone, release_all (record_event StopPlaywright
                        (release_all (record_event CloseBrowser w')))))"
    by (simp add: main_run opened_def)
  show "fst (execute a fs env) = 0"
    by (simp add: execute_main m r exit_code_def)
  show "files (snd (execute a fs env)) =
           fs(landing_png \<mapsto> png_signature @ pixels a v,
              login_png \<mapsto> png_signature @ pixels a (activate a v b))"
    by (simp add: execute_main m r release_all_def record_event_def)
  show "events (snd (execute a fs env)) =
           [StartPlaywright, Launch True, NewPage] @ map PageCall plan @
           [CloseBrowser, Released PageHandle, Released BrowserProcess, StopPlaywright]"
    by (simp add: execute_main m r release_all_def record_event_def opened_fields)
qed

lemma exec_all_frame:
  "target (snd (exec_all ss w)) = target w \<and> environ (snd (exec_all ss w)) = environ w \<and>
   live (snd (exec_all ss w)) = live w"
proof (induction ss arbitrary: w)
  case Nil
  then show ?case by simp
next
  case (Cons s ss)
  obtain r w1 where step: "exec s w = (r, w1)" by (cases "exec s w")
  then have "target w1 = target w \<and> environ w1 = environ w \<and> live w1 = live w"
    using exec_frame [of s w] by simp
  then show ?case using step Cons.IH [of w1] by (cases r) simp_all
qed

lemma count_page_calls: "count_list (map PageCall ss) (Released r) = 0"
  by (induction ss) simp_all

lemma execute_shape:
  "\<exists>n\<le>6. events (snd (execute a fs env)) =
      [StartPlaywright, Launch True, NewPage] @ map PageCall (take n plan) @
      (if fst (execute a fs env) = 0
       then [CloseBrowser, Released PageHandle, Released BrowserProcess, StopPlaywright]
       else [StopPlaywright, Released PageHandle, Released BrowserProcess]) \<and>
    live (snd (execute a fs env)) = []"
proof -
  obtain r w' where run: "run (opened a fs env) = (r, w')" by (cases "run (opened a fs env)")
  from exec_all_events [of plan "opened a fs env"] obtain n where n: "n \<le> length plan"
    "events (snd (exec_all plan (opened a fs env))) =
       events (opened a fs env) @ map PageCall (take n plan)" by blast
  have ev: "events w' = [StartPlaywright, Launch True, NewPage] @ map PageCall (take n plan)"
    using n(2) run by (simp add: run_exec_all [symmetric] opened_fields)
  have lv: "live w' = [BrowserProcess, PageHandle]"
    using exec_all_frame [of plan "opened a fs env"] run
    by (simp add: run_exec_all [symmetric] opened_fields)
  have n6: "n \<le> 6" using n(1) plan_shape by simp
  have m: "main (boot a fs env) =
    (case r of
       Inl e \<Rightarrow> (Inl e, release_all (record_event StopPlaywright w'))
     | Inr x \<Rightarrow>
         (Inr PyNone, release_all (record_event StopPlaywright
                        (release_all (record_event CloseBrowser w')))))"
    using run by (simp add: main_run opened_def split: sum.splits)
  have "events (snd (execute a fs env)) =
      [StartPlaywright, Launch True, NewPage] @ map PageCall (take n plan) @
      (if fst (execute a fs env) = 0
       then [CloseBrowser, Released PageHandle, Released BrowserProcess, StopPlaywright]
       else [StopPlaywright, Released PageHandle, Released BrowserProcess])"
    by (cases r) (simp_all add: execute_main m exit_code_def release_all_def record_event_def ev lv)
  moreover have "live (snd (execute a fs env)) = []"
    by (cases r) (simp_all add: execute_main m release_all_def record_event_def)
  ultimately show ?thesis using n6 by blast
qed

lemma main_boot:
  "main (boot a fs env) =
    (case run (opened a fs env) of
       (Inl e, w') \<Rightarrow> (Inl e, release_all (record_event StopPlaywright w'))
     | (Inr x, w') \<Rightarrow>
         (Inr PyNone, release_all (record_event StopPlaywright
                        (release_all (record_event CloseBrowser w')))))"
  by (simp add: main_run opened_def)

lemma execute_frame: "environ (snd (execute a fs env)) = env \<and> target (snd (execute a fs env)) = a"
proof -
  obtain r w' where run: "run (opened a fs env) = (r, w')" by (cases "run (opened a fs env)")
  have "environ w' = env \<and> target w' = a"
    using exec_all_frame [of plan "opened a fs env"] run
    by (simp add: run_exec_all [symmetric] opened_fields)
  then show ?thesis using run
    by (cases r)
       (simp_all add: execute_main main_boot release_all_def record_event_def)
qed

lemma indifferentI:
  assumes "\<And>w w'. same_browser w w' \<Longrightarrow>
             fst (s w) = fst (s w') \<and> same_browser (snd (s w)) (snd (s w'))"
  shows "indifferent s"
  using assms by (simp add: indifferent_def)

lemma indifferentD:
  assumes "indifferent s" and "same_browser w w'"
  shows "fst (s w) = fst (s w')" and "same_browser (snd (s w)) (snd (s w'))"
  using assms by (simp_all add: indifferent_def)

lemma indifferent_seq:
  assumes "indifferent s" and "indifferent t"
  shows "indifferent (seq s t)"
proof (rule indifferentI)
  fix w w' assume sb: "same_browser w w'"
  obtain r w1 where a: "s w = (r, w1)" by (cases "s w")
  obtain r' w1' where b: "s w' = (r', w1')" by (cases "s w'")
  have r: "r' = r" and sb1: "same_browser w1 w1'"
    using indifferentD [OF assms(1) sb] a b by simp_all
  show "fst (seq s t w) = fst (seq s t w') \<and> same_browser (snd (seq s t w)) (snd (seq s t w'))"
  proof (cases r)
    case (Inl e)
    then show ?thesis using a b r sb1 by (simp add: seq_def)
  next
    case (Inr x)
    then show ?thesis using a b r indifferentD [OF assms(2) sb1] by (simp add: seq_def)
  qed
qed

lemma indifferent_return_none: "indifferent return_none"
  by (simp add: indifferent_def return_none_def)

lemma indifferent_goto: "indifferent (goto u)"
  by (simp add: indifferent_def same_browser_def goto_def record_event_def Let_def
      split: option.splits)

lemma indifferent_to_be_visible: "indifferent (to_be_visible loc)"
  by (simp add: indifferent_def same_browser_def to_be_visible_def record_event_def Let_def
      split: list.splits)

lemma indifferent_screenshot: "indifferent (screenshot p)"
  by (simp add: indifferent_def same_browser_def screenshot_def record_event_def Let_def)

lemma indifferent_click: "indifferent (click loc)"
  by (simp add: indifferent_def same_browser_def click_def record_event_def Let_def
      split: list.splits)

lemma indifferent_run: "indifferent run"
  unfolding run_def
  by (intro indifferent_seq indifferent_goto indifferent_to_be_visible indifferent_screenshot
      indifferent_click indifferent_return_none)

lemma indifferent_launch: "indifferent (launch h)"
  by (simp add: indifferent_def same_browser_def launch_def record_event_def Let_def)

lemma indifferent_new_page: "indifferent new_page"
  by (simp add: indifferent_def same_browser_def new_page_def record_event_def Let_def)

lemma indifferent_close: "indifferent close"
  by (simp add: indifferent_def same_browser_def close_def release_all_def record_event_def)

lemma indifferent_with:
  assumes "indifferent body"
  shows "indifferent (with_sync_playwright body)"
proof (rule indifferentI)
  fix w w' assume sb: "same_browser w w'"
  let ?w0 = "record_event StartPlaywright w" and ?w0' = "record_event StartPlaywright w'"
  have sb0: "same_browser ?w0 ?w0'"
    using sb by (simp add: same_browser_def record_event_def)
  obtain r w1 where a: "body ?w0 = (r, w1)" by (cases "body ?w0")
  obtain r' w1' where b: "body ?w0' = (r', w1')" by (cases "body ?w0'")
  have r: "r' = r" and sb1: "same_browser w1 w1'"
    using indifferentD [OF assms sb0] a b by simp_all
  have "same_browser (release_all (record_event StopPlaywright w1))
                     (release_all (record_event StopPlaywright w1'))"
    using sb1 by (simp add: same_browser_def release_all_def record_event_def)
  then show "fst (with_sync_playwright body w) = fst (with_sync_playwright body w') \<and>
        same_browser (snd (with_sync_playwright body w)) (snd (with_sync_playwright body w'))"
    using a b r by (cases r) (simp_all add: with_sync_playwright_def)
qed

lemma indifferent_main: "indifferent main"
  unfolding main_def
  by (intro indifferent_with indifferent_seq indifferent_launch indifferent_new_page
      indifferent_run indifferent_close indifferent_return_none)

text \<open>The two paths of the program on concrete targets: a correct one and an unreachable one.\<close>

lemma execute_examples:
  "fst (execute aura_app Map.empty Map.empty) = 0"
  "events (snd (execute aura_app Map.empty Map.empty)) =
     [StartPlaywright, Launch True, NewPage,
      PageCall (Goto ''http://localhost:5000''),
      PageCall (ExpectVisible (ByRole ''heading'' ''The Future of AI Automation is Here'' False)),
      PageCall (Screenshot ''jules-scratch/verification/landing_page.png''),
      PageCall (Click (ByRole ''button'' ''Login'' False)),
      PageCall (ExpectVisible (ByRole ''heading'' ''Welcome to AuraOS'' False)),
      PageCall (Screenshot ''jules-scratch/verification/login_page.png''),
      CloseBrowser, Released PageHandle, Released BrowserProcess, StopPlaywright]"
  "fst (execute dead_app Map.empty Map.empty) = 1"
  "events (snd (execute dead_app Map.empty Map.empty)) =
     [StartPlaywright, Launch True, NewPage,
      PageCall (Goto ''http://localhost:5000''),
      StopPlaywright, Released PageHandle, Released BrowserProcess]"
  by code_simp+

subsection \<open>C1: the six steps in order\<close>

text \<open>
  Claim C1, as amended. The page calls that \<open>run\<close> issues are always an initial segment
  of one fixed list of six calls, in its order and without repetition: navigate to the
  landing address, wait for the first heading, write the landing screenshot, activate the
  login control, wait for the second heading, write the login screenshot. A run that
  returns has issued all six. A run that fails has issued an initial segment only, so
  "every invocation performs exactly six steps" holds for the invocations that complete:
  against an unreachable address the only step is the navigation.
\<close>

theorem run_issues_plan_prefix:
  "(\<exists>n\<le>6. events (snd (run w)) = events w @ map PageCall (take n plan)) \<and>
   (\<forall>v. fst (run w) = Inr v \<longrightarrow> events (snd (run w)) = events w @ map PageCall plan) \<and>
   distinct plan \<and>
   plan = [Goto ''http://localhost:5000'',
           ExpectVisible (ByRole ''heading'' ''The Future of AI Automation is Here'' False),
           Screenshot ''jules-scratch/verification/landing_page.png'',
           Click (ByRole ''button'' ''Login'' False),
           ExpectVisible (ByRole ''heading'' ''Welcome to AuraOS'' False),
           Screenshot ''jules-scratch/verification/login_page.png'']"
proof -
  from exec_all_events [of plan w] obtain n where n: "n \<le> length plan"
    "events (snd (exec_all plan w)) = events w @ map PageCall (take n plan)"
    "\<forall>v. fst (exec_all plan w) = Inr v \<longrightarrow> n = length plan" by blast
  have "\<exists>n\<le>6. events (snd (run w)) = events w @ map PageCall (take n plan)"
    using n plan_shape by (auto simp: run_exec_all)
  moreover have "\<forall>v. fst (run w) = Inr v \<longrightarrow> events (snd (run w)) = events w @ map PageCall plan"
    using n by (simp add: run_exec_all)
  moreover have "plan = [Goto ''http://localhost:5000'',
           ExpectVisible (ByRole ''heading'' ''The Future of AI Automation is Here'' False),
           Screenshot ''jules-scratch/verification/landing_page.png'',
           Click (ByRole ''button'' ''Login'' False),
           ExpectVisible (ByRole ''heading'' ''Welcome to AuraOS'' False),
           Screenshot ''jules-scratch/verification/login_page.png'']"
    by (simp add: plan_def landing_url_def hero_heading_def login_button_def
        welcome_heading_def landing_png_def login_png_def)
  ultimately show ?thesis using plan_shape by blast
qed

theorem run_issues_plan_prefix_witness:
  "fst (run (boot aura_app Map.empty Map.empty)) = Inr PyNone \<and>
   events (snd (run (boot aura_app Map.empty Map.empty))) = map PageCall plan"
proof -
  have ok: "fst (run (boot aura_app Map.empty Map.empty)) = Inr PyNone"
    by code_simp
  have "events (boot aura_app Map.empty Map.empty) = []"
    by (simp add: boot_def)
  with ok run_issues_plan_prefix [of "boot aura_app Map.empty Map.empty"] show ?thesis
    by simp
qed

theorem run_six_steps_counterexample:
  "fst (run (boot dead_app Map.empty Map.empty)) = Inl NavigationError \<and>
   events (snd (run (boot dead_app Map.empty Map.empty))) = [PageCall (Goto ''http://localhost:5000'')] \<and>
   length (events (snd (run (boot dead_app Map.empty Map.empty)))) \<noteq> 6"
  by code_simp

subsection \<open>C2: a correct target gives two images and exit code 0\<close>

text \<open>
  Claim C2, as amended. Against a target on which each of the script's three locators
  resolves to exactly one element (one heading of the landing view for the first heading
  locator, one control for the login locator, one heading of the view after the click for
  the second heading locator), the program exits with code 0 and the file system it
  leaves is the one it found with two files written, both non-empty, at the two fixed and
  different paths. That the landing heading is present is not enough: locators are
  strict, so when a second heading of the landing view also matches the heading locator
  the wait fails, the program exits with code 1 and no file is written.
\<close>

theorem healthy_run_exits_zero_with_two_images:
  assumes "healthy a"
  shows "fst (execute a fs env) = 0 \<and>
         (\<exists>img1 img2. img1 \<noteq> [] \<and> img2 \<noteq> [] \<and>
            files (snd (execute a fs env)) =
              fs(''jules-scratch/verification/landing_page.png'' \<mapsto> img1,
                 ''jules-scratch/verification/login_page.png'' \<mapsto> img2)) \<and>
         ''jules-scratch/verification/landing_page.png'' \<noteq> ''jules-scratch/verification/login_page.png''"
proof -
  from assms obtain v h b h2 where *: "serve a landing_url = Some v" "resolve (matching a) hero_heading v = [h]"
    "resolve (matching a) login_button v = [b]" "resolve (matching a) welcome_heading (activate a v b) = [h2]"
    by (rule healthyD)
  have "png_signature @ pixels a v \<noteq> []" "png_signature @ pixels a (activate a v b) \<noteq> []"
    by (simp_all add: png_signature_def)
  moreover have "files (snd (execute a fs env)) =
      fs(''jules-scratch/verification/landing_page.png'' \<mapsto> png_signature @ pixels a v,
         ''jules-scratch/verification/login_page.png'' \<mapsto> png_signature @ pixels a (activate a v b))"
    using execute_healthy(2) [OF *, of fs env] by (simp add: landing_png_def login_png_def)
  ultimately have "\<exists>img1 img2. img1 \<noteq> [] \<and> img2 \<noteq> [] \<and>
            files (snd (execute a fs env)) =
              fs(''jules-scratch/verification/landing_page.png'' \<mapsto> img1,
                 ''jules-scratch/verification/login_page.png'' \<mapsto> img2)"
    by blast
  then show ?thesis using execute_healthy(1) [OF *, of fs env] by simp
qed

theorem healthy_run_exits_zero_with_two_images_witness:
  "healthy aura_app \<and>
   fst (execute aura_app stale_files Map.empty) = 0 \<and>
   (\<exists>img1 img2. img1 \<noteq> [] \<and> img2 \<noteq> [] \<and>
      files (snd (execute aura_app stale_files Map.empty)) =
        stale_files(''jules-scratch/verification/landing_page.png'' \<mapsto> img1,
                    ''jules-scratch/verification/login_page.png'' \<mapsto> img2))"
proof -
  have h: "healthy aura_app" by code_simp
  show ?thesis
    using h healthy_run_exits_zero_with_two_images [OF h, of stale_files Map.empty] by simp
qed

theorem heading_present_counterexample:
  "serve two_headings_app ''http://localhost:5000'' =
     Some [heading ''The Future of AI Automation is Here'',
           heading ''Why the future of AI automation is here'',
           button ''Login''] \<and>
   activate two_headings_app
     [heading ''The Future of AI Automation is Here'',
      heading ''Why the future of AI automation is here'',
      button ''Login'']
     (button ''Login'') = [heading ''Welcome to AuraOS''] \<and>
   fst (execute two_headings_app Map.empty Map.empty) = 1 \<and>
   files (snd (execute two_headings_app Map.empty Map.empty))
     ''jules-scratch/verification/landing_page.png'' = None \<and>
   files (snd (execute two_headings_app Map.empty Map.empty))
     ''jules-scratch/verification/login_page.png'' = None"
  by code_simp

subsection \<open>C3: a landing view without the heading\<close>




subsection \<open>C4: a login control that does not resolve\<close>

text \<open>
  Claim C4, as amended. When the run reaches the click and zero or several controls match
  the login label, \<open>run\<close> fails with ElementResolutionError after four calls: the landing
  screenshot has been written and the login screenshot has not. The file at the second
  path is then whatever it was before the run: absent if it was absent, and still there
  if an earlier run left one, so "does not exist" holds for a file system that did not
  hold that file already.
\<close>

theorem unresolved_login_fails_after_first_screenshot:
  assumes "serve (target w) ''http://localhost:5000'' = Some v"
      and "length (resolve (matching (target w)) hero_heading v) = 1"
      and "length (resolve (matching (target w)) login_button v) \<noteq> 1"
  shows "fst (run w) = Inl ElementResolutionError \<and>
         files (snd (run w)) =
           (files w)(''jules-scratch/verification/landing_page.png'' \<mapsto>
                       png_signature @ pixels (target w) v) \<and>
         files (snd (run w)) ''jules-scratch/verification/login_page.png'' =
           files w ''jules-scratch/verification/login_page.png'' \<and>
         events (snd (run w)) = events w @ map PageCall (take 4 plan)"
proof -
  from assms(2) obtain h where h: "resolve (matching (target w)) hero_heading v = [h]"
    by (cases "resolve (matching (target w)) hero_heading v") auto
  from assms(3) consider "resolve (matching (target w)) login_button v = []"
    | e e' es where "resolve (matching (target w)) login_button v = e # e' # es"
    by (cases "resolve (matching (target w)) login_button v" rule: remdups_adj.cases) auto
  then show ?thesis
  proof cases
    case 1
    with assms(1) h show ?thesis
      by (simp add: run_def seq_def lib_defs Let_def plan_def
          landing_url_def hero_heading_def login_button_def welcome_heading_def landing_png_def
          login_png_def)
  next
    case 2
    with assms(1) h show ?thesis
      by (simp add: run_def seq_def lib_defs Let_def plan_def
          landing_url_def hero_heading_def login_button_def welcome_heading_def landing_png_def
          login_png_def)
  qed
qed

theorem unresolved_login_fails_after_first_screenshot_witness:
  "serve (target (boot two_logins_app Map.empty Map.empty)) ''http://localhost:5000'' =
     Some [heading ''The Future of AI Automation is Here'', button ''Login'', button ''Login''] \<and>
   fst (run (boot two_logins_app Map.empty Map.empty)) = Inl ElementResolutionError \<and>
   files (snd (run (boot two_logins_app Map.empty Map.empty)))
     ''jules-scratch/verification/landing_page.png'' \<noteq> None \<and>
   files (snd (run (boot two_logins_app Map.empty Map.empty)))
     ''jules-scratch/verification/login_page.png'' = None"
proof -
  let ?v = "[heading ''The Future of AI Automation is Here'', button ''Login'', button ''Login'']"
  have s: "serve (target (boot two_logins_app Map.empty Map.empty)) ''http://localhost:5000'' = Some ?v"
    by (simp add: boot_def two_logins_app_def site_def)
  have h: "length (resolve (matching (target (boot two_logins_app Map.empty Map.empty))) hero_heading ?v) = 1" by code_simp
  have b: "length (resolve (matching (target (boot two_logins_app Map.empty Map.empty))) login_button ?v) \<noteq> 1" by code_simp
  show ?thesis
    using s unresolved_login_fails_after_first_screenshot [OF s h b] by (simp add: boot_def)
qed

theorem second_file_absent_counterexample:
  "fst (run (boot no_login_app stale_files Map.empty)) = Inl ElementResolutionError \<and>
   files (snd (run (boot no_login_app stale_files Map.empty)))
     ''jules-scratch/verification/landing_page.png'' \<noteq> None \<and>
   files (snd (run (boot no_login_app stale_files Map.empty)))
     ''jules-scratch/verification/login_page.png'' = Some [137, 80, 78, 71]"
  by code_simp

subsection \<open>C5: an unreachable address\<close>

text \<open>
  Claim C5. When the landing address is unreachable, \<open>run\<close> fails with NavigationError at
  the navigation, which is the only call issued, and the file system is left as it was.
\<close>

theorem unreachable_fails_at_navigation:
  assumes "serve (target w) ''http://localhost:5000'' = None"
  shows "fst (run w) = Inl NavigationError \<and>
         files (snd (run w)) = files w \<and>
         events (snd (run w)) = events w @ [PageCall (Goto ''http://localhost:5000'')]"
  using assms
  by (simp add: run_def seq_def goto_def record_event_def Let_def)

theorem unreachable_fails_at_navigation_witness:
  "serve (target (boot dead_app stale_files Map.empty)) ''http://localhost:5000'' = None \<and>
   fst (run (boot dead_app stale_files Map.empty)) = Inl NavigationError \<and>
   files (snd (run (boot dead_app stale_files Map.empty))) = stale_files \<and>
   events (snd (run (boot dead_app stale_files Map.empty))) = [PageCall (Goto ''http://localhost:5000'')]"
proof -
  have h: "serve (target (boot dead_app stale_files Map.empty)) ''http://localhost:5000'' = None"
    by (simp add: boot_def dead_app_def)
  show ?thesis
    using h unreachable_fails_at_navigation [OF h] by (simp add: boot_def)
qed

subsection \<open>C6: fail-fast\<close>

text \<open>
  Claim C6. Whichever of the six steps is the first to fail, after the steps before it
  succeeded, the run ends there with that step's error: the world \<open>run\<close> leaves is the
  world right after the failing call, and the calls issued are the steps up to and
  including the failing one, each once. Nothing is retried and no later navigation, wait,
  click or screenshot happens.
\<close>

theorem run_fail_fast:
  assumes "k < length plan"
      and "exec_all (take k plan) w = (Inr v, wk)"
      and "exec (plan ! k) wk = (Inl e, w_err)"
  shows "run w = (Inl e, w_err) \<and> events w_err = events w @ map PageCall (take (Suc k) plan)"
  using exec_all_fail_fast [OF assms] by (simp add: run_exec_all)

theorem run_fail_fast_witness:
  "run (boot no_login_app Map.empty Map.empty) =
     (Inl ElementResolutionError,
      snd (exec (plan ! 3) (snd (exec_all (take 3 plan) (boot no_login_app Map.empty Map.empty))))) \<and>
   events (snd (run (boot no_login_app Map.empty Map.empty))) = map PageCall (take 4 plan)"
proof -
  let ?w = "boot no_login_app Map.empty Map.empty"
  let ?wk = "snd (exec_all (take 3 plan) ?w)"
  let ?we = "snd (exec (plan ! 3) ?wk)"
  have k: "(3::nat) < length plan" by (simp add: plan_def)
  have "fst (exec_all (take 3 plan) ?w) = Inr PyNone" by code_simp
  then have pre: "exec_all (take 3 plan) ?w = (Inr PyNone, ?wk)"
    by (simp add: prod_eq_iff)
  have "fst (exec (plan ! 3) ?wk) = Inl ElementResolutionError" by code_simp
  then have bad: "exec (plan ! 3) ?wk = (Inl ElementResolutionError, ?we)"
    by (simp add: prod_eq_iff)
  have "events ?w = []" by (simp add: boot_def)
  with run_fail_fast [OF k pre bad] show ?thesis by simp
qed

subsection \<open>C7: teardown on both paths\<close>

text \<open>
  Claim C7. Whatever the target does, the program ends with nothing held, and its log
  has exactly one release of the page handle and exactly one of the browser process,
  after the last page call: through \<^verbatim>\<open>browser.close()\<close> when \<open>run\<close> returned (exit code 0),
  through leaving the \<^verbatim>\<open>with\<close> scope when \<open>run\<close> raised.
\<close>

theorem teardown_exactly_once:
  "live (snd (execute a fs env)) = [] \<and>
   count_list (events (snd (execute a fs env))) (Released PageHandle) = 1 \<and>
   count_list (events (snd (execute a fs env))) (Released BrowserProcess) = 1 \<and>
   (\<exists>n\<le>6. events (snd (execute a fs env)) =
      [StartPlaywright, Launch True, NewPage] @ map PageCall (take n plan) @
      (if fst (execute a fs env) = 0
       then [CloseBrowser, Released PageHandle, Released BrowserProcess, StopPlaywright]
       else [StopPlaywright, Released PageHandle, Released BrowserProcess]))"
proof -
  from execute_shape [of a fs env] obtain n where n: "n \<le> 6"
    "events (snd (execute a fs env)) =
      [StartPlaywright, Launch True, NewPage] @ map PageCall (take n plan) @
      (if fst (execute a fs env) = 0
       then [CloseBrowser, Released PageHandle, Released BrowserProcess, StopPlaywright]
       else [StopPlaywright, Released PageHandle, Released BrowserProcess])"
    and lv: "live (snd (execute a fs env)) = []" by blast
  have "count_list (events (snd (execute a fs env))) (Released PageHandle) = 1"
    by (simp add: n(2) count_page_calls)
  moreover have "count_list (events (snd (execute a fs env))) (Released BrowserProcess) = 1"
    by (simp add: n(2) count_page_calls)
  ultimately show ?thesis using n lv by blast
qed

subsection \<open>C8: running twice\<close>

text \<open>
  Claim C8. Two runs in succession against a target that behaves correctly both times
  (its rendering may have changed in between): the second exits with 0 and leaves the
  same set of files as the first, the old files and the two fixed paths; the file system
  after the second run is the one the second run alone would have produced, so nothing
  of the first run's output survives or accumulates; the second run issues the same
  events as the first; and with an unchanged target the file system after two runs is
  the file system after one.
\<close>

theorem rerun_overwrites_same_two_files:
  assumes "healthy a1" and "healthy a2"
  shows "fst (execute a2 (files (snd (execute a1 fs env1))) env2) = 0 \<and>
     dom (files (snd (execute a1 fs env1))) =
       dom fs \<union> {''jules-scratch/verification/landing_page.png'',
                  ''jules-scratch/verification/login_page.png''} \<and>
     dom (files (snd (execute a2 (files (snd (execute a1 fs env1))) env2))) =
       dom (files (snd (execute a1 fs env1))) \<and>
     files (snd (execute a2 (files (snd (execute a1 fs env1))) env2)) =
       files (snd (execute a2 fs env2)) \<and>
     events (snd (execute a2 (files (snd (execute a1 fs env1))) env2)) =
       events (snd (execute a1 fs env1)) \<and>
     (a1 = a2 \<longrightarrow>
        files (snd (execute a2 (files (snd (execute a1 fs env1))) env2)) =
          files (snd (execute a1 fs env1)))"
proof -
  from assms(1) obtain v h b h2 where 1: "serve a1 landing_url = Some v"
    "resolve (matching a1) hero_heading v = [h]" "resolve (matching a1) login_button v = [b]"
    "resolve (matching a1) welcome_heading (activate a1 v b) = [h2]"
    by (rule healthyD)
  from assms(2) obtain v' h' b' h2' where 2: "serve a2 landing_url = Some v'"
    "resolve (matching a2) hero_heading v' = [h']" "resolve (matching a2) login_button v' = [b']"
    "resolve (matching a2) welcome_heading (activate a2 v' b') = [h2']"
    by (rule healthyD)
  let ?once = "files (snd (execute a1 fs env1))"
  have once: "?once = fs(landing_png \<mapsto> png_signature @ pixels a1 v,
                          login_png \<mapsto> png_signature @ pixels a1 (activate a1 v b))"
    by (rule execute_healthy(2) [OF 1])
  have twice: "files (snd (execute a2 ?once env2)) =
      ?once(landing_png \<mapsto> png_signature @ pixels a2 v',
            login_png \<mapsto> png_signature @ pixels a2 (activate a2 v' b'))"
    by (rule execute_healthy(2) [OF 2])
  have alone: "files (snd (execute a2 fs env2)) =
      fs(landing_png \<mapsto> png_signature @ pixels a2 v',
         login_png \<mapsto> png_signature @ pixels a2 (activate a2 v' b'))"
    by (rule execute_healthy(2) [OF 2])
  have c1: "fst (execute a2 ?once env2) = 0"
    by (rule execute_healthy(1) [OF 2])
  have c2: "dom ?once = dom fs \<union> {''jules-scratch/verification/landing_page.png'',
                  ''jules-scratch/verification/login_page.png''}"
    unfolding once by (auto simp: landing_png_def login_png_def)
  have c3: "dom (files (snd (execute a2 ?once env2))) = dom ?once"
    unfolding twice unfolding once by auto
  have c4: "files (snd (execute a2 ?once env2)) = files (snd (execute a2 fs env2))"
    unfolding twice alone unfolding once by (simp add: fun_upd_twist)
  have c5: "events (snd (execute a2 ?once env2)) = events (snd (execute a1 fs env1))"
    by (simp add: execute_healthy(3) [OF 2] execute_healthy(3) [OF 1])
  have c6: "a1 = a2 \<longrightarrow> files (snd (execute a2 ?once env2)) = ?once"
  proof
    assume eq: "a1 = a2"
    with 1 2 have "v' = v" by simp
    moreover from this eq 1 2 have "b' = b" by simp
    ultimately show "files (snd (execute a2 ?once env2)) = ?once"
      unfolding twice unfolding once using eq by (simp add: fun_upd_twist)
  qed
  from c1 c2 c3 c4 c5 c6 show ?thesis by blast
qed

theorem rerun_overwrites_same_two_files_witness:
  "healthy aura_app \<and> healthy shouting_app \<and>
   fst (execute shouting_app (files (snd (execute aura_app stale_files Map.empty))) Map.empty) = 0 \<and>
   files (snd (execute shouting_app (files (snd (execute aura_app stale_files Map.empty))) Map.empty)) =
     files (snd (execute shouting_app stale_files Map.empty)) \<and>
   files (snd (execute aura_app (files (snd (execute aura_app stale_files Map.empty))) Map.empty)) =
     files (snd (execute aura_app stale_files Map.empty))"
proof -
  have h1: "healthy aura_app" by code_simp
  have h2: "healthy shouting_app" by code_simp
  note two = rerun_overwrites_same_two_files [OF h1 h2, of stale_files Map.empty Map.empty]
  note one = rerun_overwrites_same_two_files [OF h1 h1, of stale_files Map.empty Map.empty]
  have a: "fst (execute shouting_app (files (snd (execute aura_app stale_files Map.empty))) Map.empty) = 0"
    using two by (rule conjunct1)
  have b: "files (snd (execute shouting_app (files (snd (execute aura_app stale_files Map.empty))) Map.empty)) =
     files (snd (execute shouting_app stale_files Map.empty))"
    using two by blast
  have c: "files (snd (execute aura_app (files (snd (execute aura_app stale_files Map.empty))) Map.empty)) =
     files (snd (execute aura_app stale_files Map.empty))"
    using one by blast
  from h1 h2 a b c show ?thesis by blast
qed

subsection \<open>C9: no environment or configuration input\<close>

text \<open>
  Claim C9. Two executions against the same target that differ in the process
  environment and in the files present (configuration or any other persisted state)
  exit with the same code and log the same events with the same arguments; the
  environment is left as found; and every event is one of a fixed set whose arguments
  are the constants of the script.
\<close>

theorem environment_not_consumed:
  "fst (execute a fs1 env1) = fst (execute a fs2 env2) \<and>
   events (snd (execute a fs1 env1)) = events (snd (execute a fs2 env2)) \<and>
   environ (snd (execute a fs1 env1)) = env1 \<and>
   set (events (snd (execute a fs1 env1))) \<subseteq>
     {StartPlaywright, Launch True, NewPage,
      PageCall (Goto ''http://localhost:5000''),
      PageCall (ExpectVisible (ByRole ''heading'' ''The Future of AI Automation is Here'' False)),
      PageCall (Screenshot ''jules-scratch/verification/landing_page.png''),
      PageCall (Click (ByRole ''button'' ''Login'' False)),
      PageCall (ExpectVisible (ByRole ''heading'' ''Welcome to AuraOS'' False)),
      PageCall (Screenshot ''jules-scratch/verification/login_page.png''),
      CloseBrowser, StopPlaywright, Released PageHandle, Released BrowserProcess}"
proof -
  have sb: "same_browser (boot a fs1 env1) (boot a fs2 env2)"
    by (simp add: same_browser_def boot_def)
  have "fst (main (boot a fs1 env1)) = fst (main (boot a fs2 env2))"
    and "events (snd (main (boot a fs1 env1))) = events (snd (main (boot a fs2 env2)))"
    using indifferentD [OF indifferent_main sb] by (simp_all add: same_browser_def)
  then have same: "fst (execute a fs1 env1) = fst (execute a fs2 env2)"
    "events (snd (execute a fs1 env1)) = events (snd (execute a fs2 env2))"
    by (simp_all add: execute_main)
  from execute_shape [of a fs1 env1] obtain n where
    ev: "events (snd (execute a fs1 env1)) =
      [StartPlaywright, Launch True, NewPage] @ map PageCall (take n plan) @
      (if fst (execute a fs1 env1) = 0
       then [CloseBrowser, Released PageHandle, Released BrowserProcess, StopPlaywright]
       else [StopPlaywright, Released PageHandle, Released BrowserProcess])" by blast
  define S where "S = {StartPlaywright, Launch True, NewPage,
      PageCall (Goto ''http://localhost:5000''),
      PageCall (ExpectVisible (ByRole ''heading'' ''The Future of AI Automation is Here'' False)),
      PageCall (Screenshot ''jules-scratch/verification/landing_page.png''),
      PageCall (Click (ByRole ''button'' ''Login'' False)),
      PageCall (ExpectVisible (ByRole ''heading'' ''Welcome to AuraOS'' False)),
      PageCall (Screenshot ''jules-scratch/verification/login_page.png''),
      CloseBrowser, StopPlaywright, Released PageHandle, Released BrowserProcess}"
  have p: "set (map PageCall plan) \<subseteq> S"
    unfolding S_def plan_def landing_url_def hero_heading_def login_button_def
      welcome_heading_def landing_png_def login_png_def
    by simp
  have "set (take n plan) \<subseteq> set plan" by (rule set_take_subset)
  then have t: "set (map PageCall (take n plan)) \<subseteq> S" using p by auto
  have f1: "set [StartPlaywright, Launch True, NewPage] \<subseteq> S"
    unfolding S_def by simp
  have f2: "set [CloseBrowser, Released PageHandle, Released BrowserProcess, StopPlaywright] \<subseteq> S"
    unfolding S_def by simp
  have f3: "set [StopPlaywright, Released PageHandle, Released BrowserProcess] \<subseteq> S"
    unfolding S_def by simp
  have "set (events (snd (execute a fs1 env1))) \<subseteq> S"
  proof (cases "fst (execute a fs1 env1) = 0")
    case True
    with ev have "events (snd (execute a fs1 env1)) =
      [StartPlaywright, Launch True, NewPage] @ map PageCall (take n plan) @
      [CloseBrowser, Released PageHandle, Released BrowserProcess, StopPlaywright]"
      by simp
    then have "set (events (snd (execute a fs1 env1))) =
      set [StartPlaywright, Launch True, NewPage] \<union> (set (map PageCall (take n plan)) \<union>
      set [CloseBrowser, Released PageHandle, Released BrowserProcess, StopPlaywright])"
      by (simp only: set_append)
    then show ?thesis using f1 t f2 by blast
  next
    case False
    with ev have "events (snd (execute a fs1 env1)) =
      [StartPlaywright, Launch True, NewPage] @ map PageCall (take n plan) @
      [StopPlaywright, Released PageHandle, Released BrowserProcess]"
      by simp
    then have "set (events (snd (execute a fs1 env1))) =
      set [StartPlaywright, Launch True, NewPage] \<union> (set (map PageCall (take n plan)) \<union>
      set [StopPlaywright, Released PageHandle, Released BrowserProcess])"
      by (simp only: set_append)
    then show ?thesis using f1 t f3 by blast
  qed
  then show ?thesis using same execute_frame [of a fs1 env1] unfolding S_def by blast
qed

subsection \<open>C10: importing the module\<close>

text \<open>
  Claim C10. Executed under any name other than \<^verbatim>\<open>__main__\<close> the module leaves the world
  exactly as it was (nothing launched, nothing issued, nothing written); under
  \<^verbatim>\<open>__main__\<close> it does what \<open>main\<close> does; and when \<open>run\<close> returns, it returns \<^verbatim>\<open>None\<close>.
\<close>

theorem import_has_no_effects:
  "(dunder_name \<noteq> ''__main__'' \<longrightarrow> module dunder_name w = (Inr PyNone, w)) \<and>
   module ''__main__'' w = main w \<and>
   (\<forall>v. fst (run w) = Inr v \<longrightarrow> v = PyNone)"
  using exec_all_returns_none [of plan w]
  by (simp add: module_def seq_def import_names_def def_run_def return_none_def run_exec_all)

theorem import_has_no_effects_witness:
  "''verify_landing_page_flow'' \<noteq> ''__main__'' \<and>
   module ''verify_landing_page_flow'' (boot aura_app Map.empty Map.empty) =
     (Inr PyNone, boot aura_app Map.empty Map.empty) \<and>
   fst (run (boot aura_app Map.empty Map.empty)) = Inr PyNone"
proof -
  have "fst (run (boot aura_app Map.empty Map.empty)) = Inr PyNone"
    by code_simp
  then have ok: "\<exists>v. fst (run (boot aura_app Map.empty Map.empty)) = Inr v"
    by blast
  with import_has_no_effects [of "''verify_landing_page_flow''" "boot aura_app Map.empty Map.empty"]
  show ?thesis by auto
qed

end
